theory Spec2Isabelle
  imports Main "HOL-Library.Sublist" "HOL-Library.AList"
begin

section \<open>JavaScript values and JSON text\<close>

text \<open>
  The exceptions the platform calls used by \<open>cache.ts\<close> can throw: reading the
  \<open>localStorage\<close>/\<open>sessionStorage\<close> global (\<open>SecurityError\<close>), \<open>setItem\<close>
  (\<open>QuotaExceededError\<close>), \<open>JSON.stringify\<close> and property access on \<open>null\<close>
  (\<open>TypeError\<close>), \<open>JSON.parse\<close> (\<open>SyntaxError\<close>); an undefined global is a
  \<open>ReferenceError\<close>.
\<close>

datatype exn = ReferenceError | SecurityError | QuotaExceededError | TypeError | SyntaxError

text \<open>
  The payload type \<open>T\<close> of \<open>CacheItem<T>\<close> is unconstrained (\<open>any\<close>), and
  \<open>JSON.parse\<close> returns an untyped value, so cache payloads and parsed blobs are
  JavaScript values. Numbers are integers (the timestamps of the code are integer
  milliseconds); fractions, \<open>NaN\<close> and infinities are not modelled. An object is the
  list of its properties in enumeration order. Strings are over 8-bit code units.
\<close>

datatype jsval =
    JUndefined
  | JNull
  | JBool bool
  | JNum int
  | JBigInt int
  | JStr string
  | JArr "jsval list"
  | JObj "(string \<times> jsval) list"

subsection \<open>JSON.stringify\<close>

text \<open>
  \<open>JSON.stringify\<close> without indentation: \<open>undefined\<close> is left out of an object and
  written as \<open>null\<close> in an array, a \<open>BigInt\<close> anywhere makes the call throw a
  \<open>TypeError\<close>, and the result for the value \<open>undefined\<close> itself is \<open>undefined\<close>
  (\<open>None\<close>).
\<close>

definition digit_char :: "nat \<Rightarrow> char" where
  "digit_char d = ''0123456789abcdef'' ! d"

function show_nat :: "nat \<Rightarrow> string" where
  "show_nat n = (if n < 10 then [digit_char n] else show_nat (n div 10) @ [digit_char (n mod 10)])"
  by pat_completeness auto
termination
  by (relation "measure id") auto

definition show_int :: "int \<Rightarrow> string" where
  "show_int i = (if i < 0 then CHR ''-'' # show_nat (nat (- i)) else show_nat (nat i))"

definition quote_char :: "char \<Rightarrow> string" where
  "quote_char c =
     (if c = CHR 0x22 then [CHR 0x5C, CHR 0x22]
      else if c = CHR 0x5C then [CHR 0x5C, CHR 0x5C]
      else if c = CHR 0x08 then [CHR 0x5C, CHR ''b'']
      else if c = CHR 0x09 then [CHR 0x5C, CHR ''t'']
      else if c = CHR 0x0A then [CHR 0x5C, CHR ''n'']
      else if c = CHR 0x0C then [CHR 0x5C, CHR ''f'']
      else if c = CHR 0x0D then [CHR 0x5C, CHR ''r'']
      else if (of_char c :: nat) < 32
        then [CHR 0x5C, CHR ''u'', CHR ''0'', CHR ''0'',
              digit_char (of_char c div 16), digit_char (of_char c mod 16)]
      else [c])"

definition quote_string :: "string \<Rightarrow> string" where
  "quote_string s = CHR 0x22 # concat (map quote_char s) @ [CHR 0x22]"

fun join :: "string \<Rightarrow> string list \<Rightarrow> string" where
  "join sep [] = []"
| "join sep [x] = x"
| "join sep (x # y # ys) = x @ sep @ join sep (y # ys)"

fun serializable :: "jsval \<Rightarrow> bool" where
  "serializable (JBigInt n) = False"
| "serializable (JArr vs) = list_all serializable vs"
| "serializable (JObj ps) = list_all (\<lambda>p. serializable (snd p)) ps"
| "serializable v = True"

fun json_text :: "jsval \<Rightarrow> string option" where
  "json_text JUndefined = None"
| "json_text JNull = Some ''null''"
| "json_text (JBool b) = Some (if b then ''true'' else ''false'')"
| "json_text (JNum n) = Some (show_int n)"
| "json_text (JBigInt n) = None"
| "json_text (JStr s) = Some (quote_string s)"
| "json_text (JArr vs) =
     Some (''['' @ join '','' (map (\<lambda>v. case json_text v of None \<Rightarrow> ''null'' | Some t \<Rightarrow> t) vs) @ '']'')"
| "json_text (JObj ps) =
     Some (''{'' @ join '',''
        (concat (map (\<lambda>p. case json_text (snd p) of None \<Rightarrow> []
                            | Some t \<Rightarrow> [quote_string (fst p) @ '':'' @ t]) ps)) @ ''}'')"

definition JSON_stringify :: "jsval \<Rightarrow> exn + string option" where
  "JSON_stringify v = (if serializable v then Inr (json_text v) else Inl TypeError)"

subsection \<open>JSON.parse\<close>

text \<open>
  A recursive-descent reader of the JSON grammar; \<open>None\<close> is the \<open>SyntaxError\<close> of
  \<open>JSON.parse\<close>. A number with a fraction or an exponent is outside the integer
  model and is not read; a \<open>\u\<close> escape is read modulo 256. An object keeps its
  members in text order (a repeated name is resolved at property access). The two length
  tests in \<open>parse_elems\<close> and \<open>parse_members\<close> make the recursion well-founded; they
  never fail (\<open>parse_shorter\<close> below).
\<close>

definition is_ws :: "char \<Rightarrow> bool" where
  "is_ws c = (c = CHR '' '' \<or> c = CHR 0x09 \<or> c = CHR 0x0A \<or> c = CHR 0x0D)"

definition skip_ws :: "string \<Rightarrow> string" where
  "skip_ws s = dropWhile is_ws s"

definition is_digit :: "char \<Rightarrow> bool" where
  "is_digit c = (c \<in> set ''0123456789'')"

definition digit_val :: "char \<Rightarrow> nat" where
  "digit_val c = of_char c - 48"

definition digits_val :: "string \<Rightarrow> nat" where
  "digits_val ds = foldl (\<lambda>a c. 10 * a + digit_val c) 0 ds"

definition hex_val :: "char \<Rightarrow> nat option" where
  "hex_val c =
     (if is_digit c then Some (of_char c - 48)
      else if c \<in> set ''abcdef'' then Some (of_char c - 87)
      else if c \<in> set ''ABCDEF'' then Some (of_char c - 55)
      else None)"

definition parse_number :: "string \<Rightarrow> (int \<times> string) option" where
  "parse_number s =
     (let neg = (case s of c # _ \<Rightarrow> c = CHR ''-'' | [] \<Rightarrow> False);
          s1 = (if neg then tl s else s);
          ds = takeWhile is_digit s1;
          rest = dropWhile is_digit s1
      in if ds = [] \<or> (1 < length ds \<and> hd ds = CHR ''0'') then None
         else if (case rest of c # _ \<Rightarrow> c \<in> set ''.eE'' | [] \<Rightarrow> False) then None
         else Some (if neg then - int (digits_val ds) else int (digits_val ds), rest))"

definition unescape :: "char \<Rightarrow> char option" where
  "unescape e =
     (if e = CHR 0x22 then Some (CHR 0x22)
      else if e = CHR 0x5C then Some (CHR 0x5C)
      else if e = CHR ''/'' then Some (CHR ''/'')
      else if e = CHR ''b'' then Some (CHR 0x08)
      else if e = CHR ''f'' then Some (CHR 0x0C)
      else if e = CHR ''n'' then Some (CHR 0x0A)
      else if e = CHR ''r'' then Some (CHR 0x0D)
      else if e = CHR ''t'' then Some (CHR 0x09)
      else None)"

definition cons_fst :: "'a \<Rightarrow> ('a list \<times> 'b) option \<Rightarrow> ('a list \<times> 'b) option" where
  "cons_fst x r = (case r of None \<Rightarrow> None | Some (xs, t) \<Rightarrow> Some (x # xs, t))"

fun parse_chars :: "string \<Rightarrow> (string \<times> string) option" where
  "parse_chars [] = None"
| "parse_chars (c # cs) =
     (if c = CHR 0x22 then Some ([], cs)
      else if c = CHR 0x5C then
        (case cs of
           [] \<Rightarrow> None
         | e # r \<Rightarrow>
             if e = CHR ''u'' then
               (case r of
                  h1 # h2 # h3 # h4 # r' \<Rightarrow>
                    (case (hex_val h1, hex_val h2, hex_val h3, hex_val h4) of
                       (Some a, Some b, Some c', Some d) \<Rightarrow>
                         cons_fst (char_of (((a * 16 + b) * 16 + c') * 16 + d)) (parse_chars r')
                     | _ \<Rightarrow> None)
                | _ \<Rightarrow> None)
             else (case unescape e of
                     None \<Rightarrow> None
                   | Some ch \<Rightarrow> cons_fst ch (parse_chars r)))
      else if (of_char c :: nat) < 32 then None
      else cons_fst c (parse_chars cs))"

function parse_value :: "string \<Rightarrow> (jsval \<times> string) option"
  and parse_elems :: "string \<Rightarrow> (jsval list \<times> string) option"
  and parse_members :: "string \<Rightarrow> ((string \<times> jsval) list \<times> string) option"
where
  "parse_value s =
     (case skip_ws s of
        [] \<Rightarrow> None
      | c # cs \<Rightarrow>
          if c = CHR ''{'' then
            (case skip_ws cs of
               [] \<Rightarrow> None
             | d # r \<Rightarrow> if d = CHR ''}'' then Some (JObj [], r)
                        else map_option (apfst JObj) (parse_members cs))
          else if c = CHR ''['' then
            (case skip_ws cs of
               [] \<Rightarrow> None
             | d # r \<Rightarrow> if d = CHR '']'' then Some (JArr [], r)
                        else map_option (apfst JArr) (parse_elems cs))
          else if c = CHR 0x22 then map_option (apfst JStr) (parse_chars cs)
          else if prefix ''true'' (c # cs) then Some (JBool True, drop 4 (c # cs))
          else if prefix ''false'' (c # cs) then Some (JBool False, drop 5 (c # cs))
          else if prefix ''null'' (c # cs) then Some (JNull, drop 4 (c # cs))
          else map_option (apfst JNum) (parse_number (c # cs)))"
| "parse_elems s =
     (case parse_value s of
        None \<Rightarrow> None
      | Some (v, r) \<Rightarrow>
          if length r < length s then
            (case skip_ws r of
               [] \<Rightarrow> None
             | c # r' \<Rightarrow>
                 if c = CHR '','' then cons_fst v (parse_elems r')
                 else if c = CHR '']'' then Some ([v], r')
                 else None)
          else None)"
| "parse_members s =
     (case skip_ws s of
        [] \<Rightarrow> None
      | q # s1 \<Rightarrow>
          if q = CHR 0x22 then
            (case parse_chars s1 of
               None \<Rightarrow> None
             | Some (k, s2) \<Rightarrow>
                   (case skip_ws s2 of
                      [] \<Rightarrow> None
                    | col # s3 \<Rightarrow>
                        if col = CHR '':'' then
                          (case parse_value s3 of
                             None \<Rightarrow> None
                           | Some (v, r) \<Rightarrow>
                               if length r < length s3 then
                                 (case skip_ws r of
                                    [] \<Rightarrow> None
                                  | c # r' \<Rightarrow>
                                      if c = CHR '','' then cons_fst (k, v) (parse_members r')
                                      else if c = CHR ''}'' then Some ([(k, v)], r')
                                      else None)
                               else None)
                        else None))
          else None)"
  by pat_completeness auto
termination
proof -
  have chars: "length r < length s" if "parse_chars s = Some (k, r)" for s k r
    using that
    by (induction s arbitrary: k r rule: parse_chars.induct)
       (fastforce simp: cons_fst_def split: if_splits list.splits option.splits)+
  have ws: "length cs < length s" if "skip_ws s = c # cs" for s c cs
  proof -
    from that have "length (dropWhile is_ws s) = Suc (length cs)"
      by (simp add: skip_ws_def)
    moreover have "length (dropWhile is_ws s) \<le> length s"
      by (rule length_dropWhile_le)
    ultimately show ?thesis by simp
  qed
  show ?thesis
    by (relation "measure (\<lambda>x. case x of Inl s \<Rightarrow> 2 * length s
                                      | Inr (Inl s) \<Rightarrow> 2 * length s + 1
                                      | Inr (Inr s) \<Rightarrow> 2 * length s + 1)")
       (auto dest!: ws chars)
qed

definition JSON_parse :: "string \<Rightarrow> exn + jsval" where
  "JSON_parse s =
     (case parse_value s of
        None \<Rightarrow> Inl SyntaxError
      | Some (v, r) \<Rightarrow> if skip_ws r = [] then Inr v else Inl SyntaxError)"

subsection \<open>Property access, comparison with a number\<close>

text \<open>
  \<open>item.name\<close> for the names the code reads (\<open>expiresAt\<close>, \<open>version\<close>, \<open>data\<close>):
  a \<open>TypeError\<close> on \<open>null\<close> and \<open>undefined\<close>, the property of an object (the last
  one of that name, as \<open>JSON.parse\<close> overwrites), and \<open>undefined\<close> where there is none.
\<close>

definition get_prop :: "jsval \<Rightarrow> string \<Rightarrow> exn + jsval" where
  "get_prop v name =
     (case v of
        JUndefined \<Rightarrow> Inl TypeError
      | JNull \<Rightarrow> Inl TypeError
      | JObj ps \<Rightarrow> Inr (case map_of (rev ps) name of None \<Rightarrow> JUndefined | Some x \<Rightarrow> x)
      | _ \<Rightarrow> Inr JUndefined)"

text \<open>
  \<open>Date.now() > x\<close> converts \<open>x\<close> to a number; \<open>None\<close> is \<open>NaN\<close>, for which every
  comparison is false. An array is converted through its string form, an object is
  \<open>NaN\<close>. A string is read as a decimal integer (other numeric spellings are outside
  the integer model and count as \<open>NaN\<close>).
\<close>

definition is_js_space :: "char \<Rightarrow> bool" where
  "is_js_space c = (c \<in> set [CHR '' '', CHR 0x09, CHR 0x0A, CHR 0x0B, CHR 0x0C, CHR 0x0D, CHR 0xA0])"

definition trim :: "string \<Rightarrow> string" where
  "trim s = rev (dropWhile is_js_space (rev (dropWhile is_js_space s)))"

definition StringToNumber :: "string \<Rightarrow> int option" where
  "StringToNumber s =
     (let t = trim s;
          neg = (case t of c # _ \<Rightarrow> c = CHR ''-'' | [] \<Rightarrow> False);
          signed = (case t of c # _ \<Rightarrow> c = CHR ''-'' \<or> c = CHR ''+'' | [] \<Rightarrow> False);
          ds = (if signed then tl t else t)
      in if t = [] then Some 0
         else if ds \<noteq> [] \<and> list_all is_digit ds
           then Some (if neg then - int (digits_val ds) else int (digits_val ds))
         else None)"

fun ToString :: "jsval \<Rightarrow> string" where
  "ToString JUndefined = ''undefined''"
| "ToString JNull = ''null''"
| "ToString (JBool b) = (if b then ''true'' else ''false'')"
| "ToString (JNum n) = show_int n"
| "ToString (JBigInt n) = show_int n"
| "ToString (JStr s) = s"
| "ToString (JArr vs) =
     join '','' (map (\<lambda>v. if v = JUndefined \<or> v = JNull then [] else ToString v) vs)"
| "ToString (JObj ps) = ''[object Object]''"

definition ToNumber :: "jsval \<Rightarrow> int option" where
  "ToNumber v =
     (case v of
        JUndefined \<Rightarrow> None
      | JNull \<Rightarrow> Some 0
      | JBool b \<Rightarrow> Some (if b then 1 else 0)
      | JNum n \<Rightarrow> Some n
      | JBigInt n \<Rightarrow> Some n
      | JStr s \<Rightarrow> StringToNumber s
      | JArr vs \<Rightarrow> StringToNumber (ToString (JArr vs))
      | JObj ps \<Rightarrow> None)"

definition js_gt :: "int \<Rightarrow> jsval \<Rightarrow> bool" where
  "js_gt n x = (case ToNumber x of None \<Rightarrow> False | Some m \<Rightarrow> n > m)"

section \<open>The browser: Web Storage, console, clock\<close>

text \<open>
  A \<open>Storage\<close> object holds string values under string keys, in insertion order, up
  to a quota; \<open>setItem\<close> throws \<open>QuotaExceededError\<close> beyond it. \<open>Object.keys\<close> of a
  storage object lists its keys.
\<close>

record Storage =
  entries :: "(string \<times> string) list"
  quota :: nat

definition used :: "(string \<times> string) list \<Rightarrow> nat" where
  "used es = sum_list (map (\<lambda>e. length (fst e) + length (snd e)) es)"

definition getItem :: "Storage \<Rightarrow> string \<Rightarrow> string option" where
  "getItem st key = map_of (entries st) key"

definition setItem :: "Storage \<Rightarrow> string \<Rightarrow> string \<Rightarrow> exn + Storage" where
  "setItem st key val =
     (let es = AList.update key val (entries st)
      in if quota st < used es then Inl QuotaExceededError else Inr (st\<lparr>entries := es\<rparr>))"

definition removeItem :: "Storage \<Rightarrow> string \<Rightarrow> Storage" where
  "removeItem st key = st\<lparr>entries := AList.delete key (entries st)\<rparr>"

definition Object_keys :: "Storage \<Rightarrow> string list" where
  "Object_keys st = map fst (entries st)"

datatype storageType = LocalStorage | SessionStorage

datatype log_entry = Warn string | Error string exn

text \<open>
  The state outside the module: whether \<open>window\<close> is defined (it is not during
  server-side rendering), the two storage globals (reading one can throw, for
  example when storage is disabled by policy), and the lines written to the console.
  The clock is not part of the state: each operation takes the value \<open>now\<close> that
  \<open>Date.now()\<close> returns during the call, in integer milliseconds.
\<close>

record world =
  window_defined :: bool
  localStorage :: "exn + Storage"
  sessionStorage :: "exn + Storage"
  console :: "log_entry list"

definition console_warn :: "string \<Rightarrow> world \<Rightarrow> world" where
  "console_warn msg w = w\<lparr>console := console w @ [Warn msg]\<rparr>"

definition console_error :: "string \<Rightarrow> exn \<Rightarrow> world \<Rightarrow> world" where
  "console_error msg error w = w\<lparr>console := console w @ [Error msg error]\<rparr>"

definition storage_global :: "storageType \<Rightarrow> world \<Rightarrow> exn + Storage" where
  "storage_global storageType w =
     (if storageType = LocalStorage then localStorage w else sessionStorage w)"

text \<open>The storage object is shared: a mutation through the handle is seen in the world.\<close>

definition put_storage :: "storageType \<Rightarrow> Storage \<Rightarrow> world \<Rightarrow> world" where
  "put_storage storageType st w =
     (if storageType = LocalStorage then w\<lparr>localStorage := Inr st\<rparr>
      else w\<lparr>sessionStorage := Inr st\<rparr>)"

text \<open>
  A computation leaves a world and either throws or returns; \<open>try_catch\<close> is
  \<open>try { body } catch (error) { handler }\<close>.
\<close>

type_synonym 'a completion = "(exn + 'a) \<times> world"

definition try_catch :: "'a completion \<Rightarrow> (exn \<Rightarrow> world \<Rightarrow> 'a completion) \<Rightarrow> 'a completion" where
  "try_catch body handler =
     (case body of (Inl error, w) \<Rightarrow> handler error w | (Inr v, w) \<Rightarrow> (Inr v, w))"

section \<open>The cache (src/cache.ts)\<close>

text \<open>
  \<open>CacheOptions\<close> has four optional fields; \<open>{ ...DEFAULT_CACHE_CONFIG, ...options }\<close>
  takes each field from the options when it is present and from the defaults otherwise.
\<close>

record CacheOptions =
  ttl_opt :: "int option"
  version_opt :: "string option"
  storage_opt :: "storageType option"
  forceRefresh_opt :: "bool option"

record Config =
  ttl :: int
  version :: string
  storage :: storageType
  forceRefresh :: bool

definition DEFAULT_CACHE_CONFIG :: Config where
  "DEFAULT_CACHE_CONFIG =
     \<lparr>ttl = 5 * 60 * 1000, version = ''1.0.0'', storage = LocalStorage, forceRefresh = False\<rparr>"

definition merge_options :: "CacheOptions \<Rightarrow> Config" where
  "merge_options options =
     \<lparr>ttl = (case ttl_opt options of None \<Rightarrow> ttl DEFAULT_CACHE_CONFIG | Some t \<Rightarrow> t),
      version = (case version_opt options of None \<Rightarrow> version DEFAULT_CACHE_CONFIG | Some v \<Rightarrow> v),
      storage = (case storage_opt options of None \<Rightarrow> storage DEFAULT_CACHE_CONFIG | Some s \<Rightarrow> s),
      forceRefresh = (case forceRefresh_opt options of
                        None \<Rightarrow> forceRefresh DEFAULT_CACHE_CONFIG | Some f \<Rightarrow> f)\<rparr>"

definition storage_name :: "storageType \<Rightarrow> string" where
  "storage_name storageType =
     (if storageType = LocalStorage then ''localStorage'' else ''sessionStorage'')"

definition getStorage :: "storageType \<Rightarrow> world \<Rightarrow> Storage option \<times> world" where
  "getStorage storageType w =
     (if \<not> window_defined w then (None, w)
      else (case storage_global storageType w of
              Inr st \<Rightarrow> (Some st, w)
            | Inl error \<Rightarrow>
                (None, console_error (''Error accessing '' @ storage_name storageType @ '':'') error w)))"

definition isExpired :: "int \<Rightarrow> jsval \<Rightarrow> exn + bool" where
  "isExpired now item =
     (case get_prop item ''expiresAt'' of
        Inl error \<Rightarrow> Inl error
      | Inr expiresAt \<Rightarrow> Inr (js_gt now expiresAt))"

definition isVersionOutdated :: "jsval \<Rightarrow> string \<Rightarrow> exn + bool" where
  "isVersionOutdated item currentVersion =
     (case get_prop item ''version'' of
        Inl error \<Rightarrow> Inl error
      | Inr v \<Rightarrow> Inr (v \<noteq> JStr currentVersion))"

definition startsWith :: "string \<Rightarrow> string \<Rightarrow> bool" where
  "startsWith s p = prefix p s"

definition make_item :: "int \<Rightarrow> jsval \<Rightarrow> Config \<Rightarrow> jsval" where
  "make_item now data config =
     JObj [(''data'', data), (''timestamp'', JNum now),
           (''expiresAt'', JNum (now + ttl config)), (''version'', JStr (version config))]"

definition setCacheData :: "int \<Rightarrow> string \<Rightarrow> jsval \<Rightarrow> CacheOptions \<Rightarrow> world \<Rightarrow> bool completion" where
  "setCacheData now key data options w =
     try_catch
       (let config = merge_options options;
            (storage_obj, w1) = getStorage (storage config) w
        in case storage_obj of
             None \<Rightarrow> (Inr False, console_warn ''Storage not available'' w1)
           | Some st \<Rightarrow>
               (let cacheItem = make_item now data config
                in case JSON_stringify cacheItem of
                     Inl error \<Rightarrow> (Inl error, w1)
                   | Inr jsonData \<Rightarrow>
                       (case setItem st key (case jsonData of None \<Rightarrow> ''undefined'' | Some t \<Rightarrow> t) of
                          Inl error \<Rightarrow> (Inl error, w1)
                        | Inr st' \<Rightarrow> (Inr True, put_storage (storage config) st' w1))))
       (\<lambda>error w'. (Inr False, console_error ''Error setting cache data:'' error w'))"

definition getCacheData :: "int \<Rightarrow> string \<Rightarrow> CacheOptions \<Rightarrow> world \<Rightarrow> jsval completion" where
  "getCacheData now key options w =
     try_catch
       (let config = merge_options options;
            (storage_obj, w1) = getStorage (storage config) w
        in case storage_obj of
             None \<Rightarrow> (Inr JNull, console_warn ''Storage not available'' w1)
           | Some st \<Rightarrow>
               (case getItem st key of
                  None \<Rightarrow> (Inr JNull, w1)
                | Some cachedData \<Rightarrow>
                    if cachedData = [] then (Inr JNull, w1)
                    else (case JSON_parse cachedData of
                            Inl error \<Rightarrow> (Inl error, w1)
                          | Inr cacheItem \<Rightarrow>
                              (case isExpired now cacheItem of
                                 Inl error \<Rightarrow> (Inl error, w1)
                               | Inr expired \<Rightarrow>
                                   if expired
                                   then (Inr JNull, put_storage (storage config) (removeItem st key) w1)
                                   else (case isVersionOutdated cacheItem (version config) of
                                           Inl error \<Rightarrow> (Inl error, w1)
                                         | Inr outdated \<Rightarrow>
                                             if outdated
                                             then (Inr JNull,
                                                   put_storage (storage config) (removeItem st key) w1)
                                             else (case get_prop cacheItem ''data'' of
                                                     Inl error \<Rightarrow> (Inl error, w1)
                                                   | Inr d \<Rightarrow> (Inr d, w1)))))))
       (\<lambda>error w'. (Inr JNull, console_error ''Error getting cache data:'' error w'))"

definition removeCacheData :: "string \<Rightarrow> storageType \<Rightarrow> world \<Rightarrow> bool completion" where
  "removeCacheData key storageType w =
     try_catch
       (let (storageObj, w1) = getStorage storageType w
        in case storageObj of
             None \<Rightarrow> (Inr False, w1)
           | Some st \<Rightarrow> (Inr True, put_storage storageType (removeItem st key) w1))
       (\<lambda>error w'. (Inr False, console_error ''Error removing cache data:'' error w'))"

definition cache_keys :: "Storage \<Rightarrow> string list" where
  "cache_keys st = filter (\<lambda>key. startsWith key ''tasa_cache_'') (Object_keys st)"

definition clearAllCache :: "storageType \<Rightarrow> world \<Rightarrow> bool completion" where
  "clearAllCache storageType w =
     try_catch
       (let (storageObj, w1) = getStorage storageType w
        in case storageObj of
             None \<Rightarrow> (Inr False, w1)
           | Some st \<Rightarrow>
               (let cacheKeys = cache_keys st
                in (Inr True, put_storage storageType (foldl removeItem st cacheKeys) w1)))
       (\<lambda>error w'. (Inr False, console_error ''Error clearing cache:'' error w'))"

record CacheStats =
  totalKeys :: nat
  cacheKeys :: nat
  expiredKeys :: nat
  totalSize :: nat

definition zero_stats :: CacheStats where
  "zero_stats = \<lparr>totalKeys = 0, cacheKeys = 0, expiredKeys = 0, totalSize = 0\<rparr>"

text \<open>
  The body of the \<open>forEach\<close> of \<open>getCacheStats\<close>, with its own \<open>try\<close>/\<open>catch\<close>: the
  loop variables are \<open>expiredKeys\<close> and \<open>totalSize\<close>, and the console of the world.
\<close>

definition stats_visit :: "int \<Rightarrow> Storage \<Rightarrow> nat \<times> nat \<times> world \<Rightarrow> string \<Rightarrow> nat \<times> nat \<times> world" where
  "stats_visit now st acc key =
     (case acc of (expired_acc, size_acc, w) \<Rightarrow>
        (case getItem st key of
           None \<Rightarrow> acc
         | Some cachedData \<Rightarrow>
             if cachedData = [] then acc
             else (case JSON_parse cachedData of
                     Inl error \<Rightarrow>
                       (expired_acc, size_acc + length cachedData,
                        console_error (''Error parsing cache item '' @ key @ '':'') error w)
                   | Inr cacheItem \<Rightarrow>
                       (case isExpired now cacheItem of
                          Inl error \<Rightarrow>
                            (expired_acc, size_acc + length cachedData,
                             console_error (''Error parsing cache item '' @ key @ '':'') error w)
                        | Inr expired \<Rightarrow>
                            (if expired then expired_acc + 1 else expired_acc,
                             size_acc + length cachedData, w)))))"

definition getCacheStats :: "int \<Rightarrow> storageType \<Rightarrow> world \<Rightarrow> CacheStats completion" where
  "getCacheStats now storageType w =
     try_catch
       (let (storageObj, w1) = getStorage storageType w
        in case storageObj of
             None \<Rightarrow> (Inr zero_stats, w1)
           | Some st \<Rightarrow>
               (let keys = Object_keys st;
                    cks = cache_keys st;
                    (expired_acc, size_acc, w2) = foldl (stats_visit now st) (0, 0, w1) cks
                in (Inr \<lparr>totalKeys = length keys, cacheKeys = length cks,
                          expiredKeys = expired_acc, totalSize = size_acc\<rparr>, w2)))
       (\<lambda>error w'. (Inr zero_stats, console_error ''Error getting cache stats:'' error w'))"

text \<open>
  The body of the \<open>forEach\<close> of \<open>cleanupExpiredCache\<close>: the loop changes the storage
  object, \<open>removedCount\<close> and the console.
\<close>

definition cleanup_visit :: "int \<Rightarrow> Storage \<times> nat \<times> world \<Rightarrow> string \<Rightarrow> Storage \<times> nat \<times> world" where
  "cleanup_visit now acc key =
     (case acc of (st, removedCount, w) \<Rightarrow>
        (case getItem st key of
           None \<Rightarrow> acc
         | Some cachedData \<Rightarrow>
             if cachedData = [] then acc
             else (case JSON_parse cachedData of
                     Inl error \<Rightarrow>
                       (removeItem st key, removedCount + 1,
                        console_error (''Error cleaning up cache item '' @ key @ '':'') error w)
                   | Inr cacheItem \<Rightarrow>
                       (case isExpired now cacheItem of
                          Inl error \<Rightarrow>
                            (removeItem st key, removedCount + 1,
                             console_error (''Error cleaning up cache item '' @ key @ '':'') error w)
                        | Inr expired \<Rightarrow>
                            if expired then (removeItem st key, removedCount + 1, w) else acc))))"

definition cleanupExpiredCache :: "int \<Rightarrow> storageType \<Rightarrow> world \<Rightarrow> nat completion" where
  "cleanupExpiredCache now storageType w =
     try_catch
       (let (storageObj, w1) = getStorage storageType w
        in case storageObj of
             None \<Rightarrow> (Inr 0, w1)
           | Some st \<Rightarrow>
               (let cks = cache_keys st;
                    (st', removedCount, w2) = foldl (cleanup_visit now) (st, 0, w1) cks
                in (Inr removedCount, put_storage storageType st' w2)))
       (\<lambda>error w'. (Inr 0, console_error ''Error cleaning up cache:'' error w'))"

text \<open>In \<open>hasValidCache\<close> the storage lookup is outside the \<open>try\<close>.\<close>

definition hasValidCache :: "int \<Rightarrow> string \<Rightarrow> CacheOptions \<Rightarrow> world \<Rightarrow> bool completion" where
  "hasValidCache now key options w =
     (let config = merge_options options;
          (storage_obj, w1) = getStorage (storage config) w
      in case storage_obj of
           None \<Rightarrow> (Inr False, w1)
         | Some st \<Rightarrow>
             try_catch
               (case getItem st key of
                  None \<Rightarrow> (Inr False, w1)
                | Some cachedData \<Rightarrow>
                    if cachedData = [] then (Inr False, w1)
                    else (case JSON_parse cachedData of
                            Inl error \<Rightarrow> (Inl error, w1)
                          | Inr cacheItem \<Rightarrow>
                              (case isExpired now cacheItem of
                                 Inl error \<Rightarrow> (Inl error, w1)
                               | Inr expired \<Rightarrow>
                                   if expired then (Inr False, w1)
                                   else (case isVersionOutdated cacheItem (version config) of
                                           Inl error \<Rightarrow> (Inl error, w1)
                                         | Inr outdated \<Rightarrow> (Inr (\<not> outdated), w1)))))
               (\<lambda>error w'. (Inr False, console_error ''Error checking cache validity:'' error w')))"

section \<open>Database connection (dbconnect.js)\<close>

text \<open>
  \<open>cached\<close> is the process-wide object \<open>{ promise, connection }\<close>. A promise is named
  by the number of the \<open>mongoose.connect\<close> call that created it, so \<open>connect_calls\<close>
  counts the connection attempts initiated so far. \<open>dbConnect\<close> is an \<open>async\<close>
  function: \<open>dbConnect_call\<close> is its synchronous part, which runs without
  interleaving up to a \<open>return\<close> or to the \<open>await\<close>; \<open>dbConnect_resume\<close> is the rest,
  run when the awaited promise has settled.
\<close>

type_synonym promise_ref = nat

record 'c Cached =
  promise :: "promise_ref option"
  connection :: "'c option"

record 'c process =
  cached :: "'c Cached"
  connect_calls :: nat
  stdout :: "string list"
  exit_code :: "nat option"

datatype 'c suspension = Return 'c | Await promise_ref

datatype 'c settlement = Fulfilled 'c | Rejected

definition dbConnect_call :: "'c process \<Rightarrow> 'c suspension \<times> 'c process" where
  "dbConnect_call p =
     (case connection (cached p) of
        Some c \<Rightarrow> (Return c, p)
      | None \<Rightarrow>
          (case promise (cached p) of
             Some q \<Rightarrow> (Await q, p)
           | None \<Rightarrow>
               (Await (connect_calls p),
                p\<lparr>cached := (cached p)\<lparr>promise := Some (connect_calls p)\<rparr>,
                  connect_calls := Suc (connect_calls p)\<rparr>)))"

definition dbConnect_resume :: "'c settlement \<Rightarrow> 'c process \<Rightarrow> 'c option \<times> 'c process" where
  "dbConnect_resume result p =
     (case result of
        Fulfilled c \<Rightarrow>
          (Some c, p\<lparr>cached := (cached p)\<lparr>connection := Some c\<rparr>,
                     stdout := stdout p @ [''MongoDB Connected:'']\<rparr>)
      | Rejected \<Rightarrow>
          (None, p\<lparr>cached := \<lparr>promise = None, connection = None\<rparr>,
                   stdout := stdout p @ [''Error connecting to MongoDB:''],
                   exit_code := Some 1\<rparr>))"

text \<open>
  A run of the process while the connection attempt succeeds: calls of \<open>dbConnect\<close>
  and resumptions of waiting calls, in any order. All waiting calls await the same
  promise, so they are resumed with the same connection \<open>c\<close>.
\<close>

datatype event = Call | Resume

fun run :: "'c \<Rightarrow> event list \<Rightarrow> 'c process \<Rightarrow> 'c process" where
  "run c [] p = p"
| "run c (Call # es) p = run c es (snd (dbConnect_call p))"
| "run c (Resume # es) p = run c es (snd (dbConnect_resume (Fulfilled c) p))"

section \<open>Auth gate (src/middleware.ts)\<close>

text \<open>
  The \<open>authorized\<close> callback reads the request path (\<open>req.nextUrl.pathname\<close>) and the
  session token, an object or \<open>null\<close>; \<open>!!token\<close> is its presence.
\<close>

definition authorized :: "'tok option \<Rightarrow> string \<Rightarrow> bool" where
  "authorized token pathname =
     (if startsWith pathname ''/auth/'' then True
      else if startsWith pathname ''/dashboard'' \<or> startsWith pathname ''/profile''
        then token \<noteq> None
      else True)"

section \<open>Vocabulary of the properties\<close>

text \<open>
  The storage backend an operation reaches for a storage selection: none outside a
  browser or when reading the global throws.
\<close>

definition backend :: "storageType \<Rightarrow> world \<Rightarrow> Storage option" where
  "backend storageType w =
     (if window_defined w
      then (case storage_global storageType w of Inr st \<Rightarrow> Some st | Inl error \<Rightarrow> None)
      else None)"

text \<open>
  What one application-prefixed key adds to the two sums of \<open>getCacheStats\<close>: the
  length of its blob, and one when its blob reads as an expired item.
\<close>

definition entry_size :: "Storage \<Rightarrow> string \<Rightarrow> nat" where
  "entry_size st key = (case getItem st key of None \<Rightarrow> 0 | Some blob \<Rightarrow> length blob)"

definition entry_expired :: "int \<Rightarrow> Storage \<Rightarrow> string \<Rightarrow> bool" where
  "entry_expired now st key =
     (case getItem st key of
        None \<Rightarrow> False
      | Some blob \<Rightarrow>
          blob \<noteq> [] \<and>
          (case JSON_parse blob of
             Inl error \<Rightarrow> False
           | Inr item \<Rightarrow> isExpired now item = Inr True))"

text \<open>The console lines one application-prefixed key adds during \<open>getCacheStats\<close>.\<close>

definition entry_log :: "int \<Rightarrow> Storage \<Rightarrow> string \<Rightarrow> log_entry list" where
  "entry_log now st key =
     (case getItem st key of
        None \<Rightarrow> []
      | Some blob \<Rightarrow>
          if blob = [] then []
          else (case JSON_parse blob of
                  Inl error \<Rightarrow> [Error (''Error parsing cache item '' @ key @ '':'') error]
                | Inr item \<Rightarrow>
                    (case isExpired now item of
                       Inl error \<Rightarrow> [Error (''Error parsing cache item '' @ key @ '':'') error]
                     | Inr expired \<Rightarrow> [])))"

text \<open>
  The entries \<open>cleanupExpiredCache\<close> removes: a non-empty blob that is expired or
  cannot be read as an item.
\<close>

definition entry_removable :: "int \<Rightarrow> Storage \<Rightarrow> string \<Rightarrow> bool" where
  "entry_removable now st key =
     (case getItem st key of
        None \<Rightarrow> False
      | Some blob \<Rightarrow>
          blob \<noteq> [] \<and>
          (case JSON_parse blob of
             Inl error \<Rightarrow> True
           | Inr item \<Rightarrow> isExpired now item \<noteq> Inr False))"


text \<open>
  The words of the specification for \<open>hasValidCache\<close>: the entry exists, is not
  expired, and carries the configured version.
\<close>

definition valid_entry :: "int \<Rightarrow> string \<Rightarrow> Storage \<Rightarrow> string \<Rightarrow> bool" where
  "valid_entry now currentVersion st key =
     (case getItem st key of
        None \<Rightarrow> False
      | Some blob \<Rightarrow>
          blob \<noteq> [] \<and>
          (case JSON_parse blob of
             Inl error \<Rightarrow> False
           | Inr item \<Rightarrow>
               isExpired now item = Inr False \<and>
               isVersionOutdated item currentVersion = Inr False))"




text \<open>
  What may follow a value inside a JSON text (\<open>stop\<close>), what may follow a number
  (\<open>num_stop\<close>), and texts that begin like a value (\<open>starts_value\<close>).
\<close>

definition stop :: "string \<Rightarrow> bool" where
  "stop r = (case r of [] \<Rightarrow> True | c # _ \<Rightarrow> c = CHR '','' \<or> c = CHR '']'' \<or> c = CHR ''}'')"


definition starts_value :: "string \<Rightarrow> bool" where
  "starts_value t =
     (case t of [] \<Rightarrow> False
      | c # _ \<Rightarrow> \<not> is_ws c \<and> c \<noteq> CHR '']'' \<and> c \<noteq> CHR ''}'' \<and> c \<noteq> CHR '','')"

text \<open>A browser with the given entries in \<open>localStorage\<close>, and a call without options.\<close>

definition browser :: "(string \<times> string) list \<Rightarrow> world" where
  "browser es =
     \<lparr>window_defined = True,
      localStorage = Inr \<lparr>entries = es, quota = 5000000\<rparr>,
      sessionStorage = Inr \<lparr>entries = [], quota = 5000000\<rparr>,
      console = []\<rparr>"

definition no_options :: CacheOptions where
  "no_options = \<lparr>ttl_opt = None, version_opt = None, storage_opt = None, forceRefresh_opt = None\<rparr>"

text \<open>An entry as \<open>setCacheData\<close> writes it, with a ttl of one second.\<close>

definition profile_blob :: string where
  \<open>profile_blob = ''{"data":{"name":"A"},"timestamp":1700000000000,"expiresAt":1700000001000,"version":"1.0.0"}''\<close>

definition profile_item :: jsval where
  "profile_item =
     JObj [(''data'', JObj [(''name'', JStr ''A'')]), (''timestamp'', JNum 1700000000000),
           (''expiresAt'', JNum 1700000001000), (''version'', JStr ''1.0.0'')]"

text \<open>
  The text of the item for the payload \<open>null\<close> written at time 0; a browser whose
  storage quota is 10 characters; a call with a ttl of one second; a server-side
  world; a process before any call.
\<close>

definition null_blob :: string where
  \<open>null_blob = ''{"data":null,"timestamp":0,"expiresAt":300000,"version":"1.0.0"}''\<close>

definition small_browser :: world where
  "small_browser =
     \<lparr>window_defined = True,
      localStorage = Inr \<lparr>entries = [], quota = 10\<rparr>,
      sessionStorage = Inr \<lparr>entries = [], quota = 10\<rparr>,
      console = []\<rparr>"


definition server :: world where
  "server = \<lparr>window_defined = False, localStorage = Inl ReferenceError,
             sessionStorage = Inl ReferenceError, console = []\<rparr>"

definition idle :: "string process" where
  "idle = \<lparr>cached = \<lparr>promise = None, connection = None\<rparr>, connect_calls = 0, stdout = [],
           exit_code = None\<rparr>"

section \<open>Evaluation of the JSON functions\<close>

text \<open>
  The recursive equations of \<open>show_nat\<close> and of the parser are unfolded on demand
  only.
\<close>

declare show_nat.simps [simp del]
declare parse_value.simps [simp del] parse_elems.simps [simp del] parse_members.simps [simp del]

lemma show_nat_small: "n < 10 \<Longrightarrow> show_nat n = [digit_char n]"
  by (subst show_nat.simps) simp

lemma show_nat_large: "\<not> n < 10 \<Longrightarrow> show_nat n = show_nat (n div 10) @ [digit_char (n mod 10)]"
  by (subst show_nat.simps) simp

section \<open>Storage and evaluation facts\<close>

text \<open>
  The definitions to unfold when a concrete text or world is evaluated, and the
  behaviour of each operation on an available and on an unavailable backend.
\<close>

lemmas json_eval =
  JSON_parse_def skip_ws_def is_ws_def is_digit_def parse_number_def unescape_def cons_fst_def
  hex_val_def digits_val_def digit_val_def JSON_stringify_def quote_string_def quote_char_def
  show_int_def digit_char_def show_nat_small show_nat_large
  parse_value.simps parse_elems.simps parse_members.simps

lemmas world_eval =
  browser_def no_options_def backend_def storage_global_def merge_options_def
  DEFAULT_CACHE_CONFIG_def getItem_def removeItem_def put_storage_def

lemma parse_profile_blob: "JSON_parse profile_blob = Inr profile_item"
  by (simp add: profile_blob_def profile_item_def json_eval)



lemma getItem_removeItem:
  "getItem (removeItem st key) k = (if k = key then None else getItem st k)"
  by (simp add: removeItem_def getItem_def delete_conv')

lemma entries_foldl_removeItem:
  "entries (foldl removeItem st ks) = filter (\<lambda>e. fst e \<notin> set ks) (entries st)"
proof (induction ks arbitrary: st)
  case Nil
  then show ?case by simp
next
  case (Cons k ks)
  have "entries (removeItem st k) = filter (\<lambda>e. k \<noteq> fst e) (entries st)"
    by (simp add: removeItem_def AList.delete_eq case_prod_unfold)
  with Cons show ?case by (auto intro: filter_cong)
qed

lemma quota_foldl_removeItem: "quota (foldl removeItem st ks) = quota st"
  by (induction ks arbitrary: st) (simp_all add: removeItem_def)

lemma getStorage_backend: "fst (getStorage t w) = backend t w"
  by (simp add: getStorage_def backend_def split: sum.splits)

lemma getStorage_Some: "backend t w = Some st \<Longrightarrow> getStorage t w = (Some st, w)"
  by (auto simp: getStorage_def backend_def split: sum.splits if_splits)

lemma getStorage_None: "backend t w = None \<Longrightarrow> \<exists>w'. getStorage t w = (None, w')"
  by (auto simp: getStorage_def backend_def split: sum.splits if_splits)

lemma backend_put_storage:
  "window_defined w \<Longrightarrow> backend t' (put_storage t st w) = (if t' = t then Some st else backend t' w)"
  by (cases t; cases t') (simp_all add: backend_def put_storage_def storage_global_def)

lemma backend_window: "backend t w = Some st \<Longrightarrow> window_defined w"
  by (simp add: backend_def split: if_splits)

lemma JSON_parse_empty: "JSON_parse [] = Inl SyntaxError"
  by (simp add: JSON_parse_def skip_ws_def parse_value.simps)

lemma try_catch_Inr: "try_catch (Inr v, w) h = (Inr v, w)"
  by (simp add: try_catch_def)

lemma try_catch_Inl: "try_catch (Inl e, w) h = h e w"
  by (simp add: try_catch_def)

lemma clearAllCache_Some:
  "backend t w = Some st \<Longrightarrow>
   clearAllCache t w = (Inr True, put_storage t (foldl removeItem st (cache_keys st)) w)"
  by (simp add: clearAllCache_def getStorage_Some try_catch_Inr)

lemma clearAllCache_None: "backend t w = None \<Longrightarrow> fst (clearAllCache t w) = Inr False"
  by (auto simp: clearAllCache_def try_catch_Inr dest!: getStorage_None)

lemma clearAllCache_None_snd: "backend t w = None \<Longrightarrow> backend t' (snd (clearAllCache t w)) = backend t' w"
  by (auto simp: clearAllCache_def try_catch_Inr getStorage_def backend_def console_error_def
      storage_global_def split: sum.splits if_splits)

lemma foldl_removeItem_cache_keys:
  "foldl removeItem st (cache_keys st) =
   st\<lparr>entries := filter (\<lambda>e. \<not> startsWith (fst e) ''tasa_cache_'') (entries st)\<rparr>"
proof -
  have "entries (foldl removeItem st (cache_keys st)) =
        filter (\<lambda>e. \<not> startsWith (fst e) ''tasa_cache_'') (entries st)"
    unfolding entries_foldl_removeItem
    by (rule filter_cong) (auto simp: cache_keys_def Object_keys_def)
  moreover have "quota (foldl removeItem st (cache_keys st)) = quota st"
    by (rule quota_foldl_removeItem)
  ultimately show ?thesis by simp
qed

lemma cache_keys_cleared:
  "cache_keys (st\<lparr>entries := filter (\<lambda>e. \<not> startsWith (fst e) ''tasa_cache_'') (entries st)\<rparr>) = []"
  by (simp add: cache_keys_def Object_keys_def filter_map comp_def filter_empty_conv)

lemma getItem_cleared:
  "getItem (st\<lparr>entries := filter (\<lambda>e. \<not> startsWith (fst e) ''tasa_cache_'') (entries st)\<rparr>) k =
   (if startsWith k ''tasa_cache_'' then None else getItem st k)"
proof -
  have aux: "map_of (filter (\<lambda>e. \<not> startsWith (fst e) p) es) k =
        (if startsWith k p then None else map_of es k)" for es p
    by (induction es) auto
  show ?thesis by (simp add: getItem_def aux)
qed

lemma getCacheStats_Some:
  "backend t w = Some st \<Longrightarrow>
   getCacheStats now t w =
     (case foldl (stats_visit now st) (0, 0, w) (cache_keys st) of
        (expired_acc, size_acc, w2) \<Rightarrow>
          (Inr \<lparr>totalKeys = length (Object_keys st), cacheKeys = length (cache_keys st),
                expiredKeys = expired_acc, totalSize = size_acc\<rparr>, w2))"
  by (simp add: getCacheStats_def getStorage_Some try_catch_def Let_def split: prod.splits)

lemma getCacheStats_None: "backend t w = None \<Longrightarrow> fst (getCacheStats now t w) = Inr zero_stats"
  by (auto simp: getCacheStats_def try_catch_Inr dest!: getStorage_None)

lemma parsed_nonempty: "JSON_parse blob = Inr item \<Longrightarrow> blob \<noteq> []"
  by (auto simp: JSON_parse_empty)


lemma hasValidCache_Some:
  assumes "backend (storage (merge_options options)) w = Some st"
  shows "fst (hasValidCache now key options w) =
           Inr (valid_entry now (version (merge_options options)) st key)"
  using assms
  by (auto simp: hasValidCache_def getStorage_Some try_catch_def Let_def valid_entry_def
      split: sum.splits option.splits)

lemma hasValidCache_None:
  assumes "backend (storage (merge_options options)) w = None"
  shows "fst (hasValidCache now key options w) = Inr False"
  using getStorage_None [OF assms]
  by (auto simp: hasValidCache_def Let_def)


lemma merge_options_forceRefresh:
  "ttl (merge_options (options\<lparr>forceRefresh_opt := f\<rparr>)) = ttl (merge_options options)"
  "version (merge_options (options\<lparr>forceRefresh_opt := f\<rparr>)) = version (merge_options options)"
  "storage (merge_options (options\<lparr>forceRefresh_opt := f\<rparr>)) = storage (merge_options options)"
  by (simp_all add: merge_options_def)

lemma stats_visit_step:
  "stats_visit now st (e, s, w) key =
     (e + (if entry_expired now st key then 1 else 0), s + entry_size st key,
      w\<lparr>console := console w @ entry_log now st key\<rparr>)"
  by (simp add: stats_visit_def entry_expired_def entry_size_def entry_log_def console_error_def
      split: option.splits sum.splits)

lemma stats_fold:
  "foldl (stats_visit now st) (e, s, w) ks =
     (e + length (filter (entry_expired now st) ks), s + sum_list (map (entry_size st) ks),
      w\<lparr>console := console w @ concat (map (entry_log now st) ks)\<rparr>)"
proof (induction ks arbitrary: e s w)
  case Nil
  then show ?case by simp
next
  case (Cons k ks)
  show ?case
    by (simp add: stats_visit_step Cons.IH)
qed

lemma getCacheStats_result:
  assumes "backend t w = Some st"
  shows "getCacheStats now t w =
    (Inr \<lparr>totalKeys = length (Object_keys st), cacheKeys = length (cache_keys st),
           expiredKeys = length (filter (entry_expired now st) (cache_keys st)),
           totalSize = sum_list (map (entry_size st) (cache_keys st))\<rparr>,
     w\<lparr>console := console w @ concat (map (entry_log now st) (cache_keys st))\<rparr>)"
  using assms by (simp add: getCacheStats_Some stats_fold)

lemma setCacheData_None:
  "backend (storage (merge_options options)) w = None \<Longrightarrow>
   fst (setCacheData now key d options w) = Inr False"
  by (auto simp: setCacheData_def try_catch_Inr Let_def dest!: getStorage_None)

lemma setCacheData_Some:
  assumes "backend (storage (merge_options options)) w = Some st"
  shows "setCacheData now key d options w =
    (case JSON_stringify (make_item now d (merge_options options)) of
       Inl error \<Rightarrow> (Inr False, console_error ''Error setting cache data:'' error w)
     | Inr jsonData \<Rightarrow>
         (case setItem st key (case jsonData of None \<Rightarrow> ''undefined'' | Some t \<Rightarrow> t) of
            Inl error \<Rightarrow> (Inr False, console_error ''Error setting cache data:'' error w)
          | Inr st' \<Rightarrow> (Inr True, put_storage (storage (merge_options options)) st' w)))"
  using assms
  by (simp add: setCacheData_def getStorage_Some try_catch_def Let_def split: sum.splits)

lemma getCacheData_None:
  "backend (storage (merge_options options)) w = None \<Longrightarrow>
   fst (getCacheData now key options w) = Inr JNull"
  by (auto simp: getCacheData_def try_catch_Inr Let_def dest!: getStorage_None)

lemma getCacheData_unparsable:
  assumes "backend (storage (merge_options options)) w = Some st"
    and "getItem st key = Some blob"
    and "JSON_parse blob = Inl error"
  shows "fst (getCacheData now key options w) = Inr JNull"
  using assms
  by (simp add: getCacheData_def getStorage_Some try_catch_def Let_def)

lemma removeCacheData_result:
  "fst (removeCacheData key t w) = Inr (backend t w \<noteq> None)"
proof (cases "backend t w")
  case None
  then show ?thesis
    by (auto simp: removeCacheData_def try_catch_Inr dest!: getStorage_None)
next
  case (Some st)
  then show ?thesis
    by (simp add: removeCacheData_def getStorage_Some try_catch_Inr)
qed

lemma cleanupExpiredCache_None:
  "backend t w = None \<Longrightarrow> fst (cleanupExpiredCache now t w) = Inr 0"
  by (auto simp: cleanupExpiredCache_def try_catch_Inr dest!: getStorage_None)

lemma cleanupExpiredCache_Some:
  "backend t w = Some st \<Longrightarrow>
   cleanupExpiredCache now t w =
     (case foldl (cleanup_visit now) (st, 0, w) (cache_keys st) of
        (st', removedCount, w2) \<Rightarrow> (Inr removedCount, put_storage t st' w2))"
  by (simp add: cleanupExpiredCache_def getStorage_Some try_catch_def Let_def split: prod.splits)

lemma setCacheData_total: "\<exists>b. fst (setCacheData now key d options w) = Inr b"
proof (cases "backend (storage (merge_options options)) w")
  case None
  then show ?thesis by (auto simp: setCacheData_None)
next
  case (Some st)
  then show ?thesis by (auto simp: setCacheData_Some split: sum.splits)
qed

lemma getCacheData_total: "\<exists>v. fst (getCacheData now key options w) = Inr v"
  by (auto simp: getCacheData_def try_catch_def Let_def
      split: prod.splits option.splits sum.splits)

lemma clearAllCache_total: "\<exists>b. fst (clearAllCache t w) = Inr b"
  by (auto simp: clearAllCache_def try_catch_def Let_def split: prod.splits option.splits)

lemma getCacheStats_total: "\<exists>s. fst (getCacheStats now t w) = Inr s"
  by (auto simp: getCacheStats_def try_catch_def Let_def split: prod.splits option.splits)

lemma cleanupExpiredCache_total: "\<exists>n. fst (cleanupExpiredCache now t w) = Inr n"
  by (auto simp: cleanupExpiredCache_def try_catch_def Let_def split: prod.splits option.splits)

lemma hasValidCache_total: "\<exists>b. fst (hasValidCache now key options w) = Inr b"
  by (cases "backend (storage (merge_options options)) w")
     (auto simp: hasValidCache_None hasValidCache_Some)

lemma hasValidCache_unparsable:
  assumes "backend (storage (merge_options options)) w = Some st"
    and "getItem st key = Some blob"
    and "JSON_parse blob = Inl error"
  shows "fst (hasValidCache now key options w) = Inr False"
  using assms by (simp add: hasValidCache_Some valid_entry_def)

lemma cleanup_visit_cases:
  "cleanup_visit now (st, n, w) key =
     (if entry_removable now st key
      then (removeItem st key, n + 1, snd (snd (cleanup_visit now (st, n, w) key)))
      else (st, n, w))"
  by (simp add: cleanup_visit_def entry_removable_def split: option.splits sum.splits)


lemma cleanup_visit_world:
  "window_defined (snd (snd (cleanup_visit now (st, n, w) key))) = window_defined w \<and>
   localStorage (snd (snd (cleanup_visit now (st, n, w) key))) = localStorage w \<and>
   sessionStorage (snd (snd (cleanup_visit now (st, n, w) key))) = sessionStorage w"
  by (simp add: cleanup_visit_def console_error_def split: option.splits sum.splits)

lemma entry_removable_removeItem:
  "k' \<noteq> k \<Longrightarrow> entry_removable now (removeItem st k) k' = entry_removable now st k'"
  by (simp add: entry_removable_def getItem_removeItem)

lemma cleanup_fold:
  assumes "distinct ks"
  shows "\<exists>w'. foldl (cleanup_visit now) (st, n, w) ks =
           (foldl removeItem st (filter (entry_removable now st) ks),
            n + length (filter (entry_removable now st) ks), w') \<and>
         window_defined w' = window_defined w \<and> localStorage w' = localStorage w \<and>
         sessionStorage w' = sessionStorage w"
  using assms
proof (induction ks arbitrary: st n w)
  case Nil
  then show ?case by simp
next
  case (Cons k ks)
  from Cons.prems have notin: "k \<notin> set ks" and dist: "distinct ks" by simp_all
  show ?case
  proof (cases "entry_removable now st k")
    case True
    obtain w1 where step: "cleanup_visit now (st, n, w) k = (removeItem st k, n + 1, w1)"
      using True cleanup_visit_cases [of now st n w k] by simp
    have w1: "window_defined w1 = window_defined w" "localStorage w1 = localStorage w"
      "sessionStorage w1 = sessionStorage w"
      using cleanup_visit_world [of now st n w k] by (simp_all add: step)
    have same: "filter (entry_removable now (removeItem st k)) ks = filter (entry_removable now st) ks"
      using notin by (intro filter_cong refl entry_removable_removeItem) auto
    from Cons.IH [OF dist, of "removeItem st k" "n + 1" w1] obtain w' where
      "foldl (cleanup_visit now) (removeItem st k, n + 1, w1) ks =
         (foldl removeItem (removeItem st k) (filter (entry_removable now st) ks),
          n + 1 + length (filter (entry_removable now st) ks), w')"
      and "window_defined w' = window_defined w1" "localStorage w' = localStorage w1"
        "sessionStorage w' = sessionStorage w1"
      unfolding same by blast
    then show ?thesis
      using True w1 by (simp add: step)
  next
    case False
    have step: "cleanup_visit now (st, n, w) k = (st, n, w)"
      using False cleanup_visit_cases [of now st n w k] by simp
    from Cons.IH [OF dist, of st n w] show ?thesis
      using False by (simp add: step)
  qed
qed



lemma cleanupExpiredCache_count:
  assumes "backend t w = Some st" and "distinct (Object_keys st)"
  shows "fst (cleanupExpiredCache now t w) =
           Inr (length (filter (entry_removable now st) (cache_keys st)))"
proof -
  have "distinct (cache_keys st)"
    using assms(2) by (simp add: cache_keys_def)
  from cleanup_fold [OF this, of now st 0 w] show ?thesis
    using assms(1) by (auto simp: cleanupExpiredCache_Some)
qed








lemma backend_browser: "backend LocalStorage (browser es) = Some \<lparr>entries = es, quota = 5000000\<rparr>"
  by (simp add: world_eval)


lemma merge_no_options:
  "storage (merge_options no_options) = LocalStorage"
  "version (merge_options no_options) = ''1.0.0''"
  "ttl (merge_options no_options) = 300000"
  by (simp_all add: no_options_def merge_options_def DEFAULT_CACHE_CONFIG_def)



lemma parse_garbage: "JSON_parse ''garbage'' = Inl SyntaxError"
  by (simp add: json_eval)

lemma backend_server: "backend t server = None"
  by (simp add: backend_def server_def)

lemma run_connected:
  "connection (cached p) = Some c \<Longrightarrow>
   connection (cached (run c es p)) = Some c \<and> connect_calls (run c es p) = connect_calls p"
proof (induction es arbitrary: p)
  case Nil
  then show ?case by simp
next
  case (Cons e es)
  show ?case
  proof (cases e)
    case Call
    with Cons show ?thesis by (simp add: dbConnect_call_def)
  next
    case Resume
    have "connection (cached (snd (dbConnect_resume (Fulfilled c) p))) = Some c"
      "connect_calls (snd (dbConnect_resume (Fulfilled c) p)) = connect_calls p"
      by (simp_all add: dbConnect_resume_def)
    with Cons.IH [of "snd (dbConnect_resume (Fulfilled c) p)"] Resume show ?thesis by simp
  qed
qed

lemma run_attempts:
  "promise (cached p) \<noteq> None \<or> connection (cached p) \<noteq> None \<Longrightarrow>
   connect_calls (run c es p) = connect_calls p"
proof (induction es arbitrary: p)
  case Nil
  then show ?case by simp
next
  case (Cons e es)
  show ?case
  proof (cases e)
    case Call
    have "snd (dbConnect_call p) = p"
      using Cons.prems by (auto simp: dbConnect_call_def split: option.splits)
    with Cons Call show ?thesis by simp
  next
    case Resume
    let ?p = "snd (dbConnect_resume (Fulfilled c) p)"
    have "connection (cached ?p) \<noteq> None" "connect_calls ?p = connect_calls p"
      by (simp_all add: dbConnect_resume_def)
    with Cons.IH [of ?p] Resume show ?thesis by simp
  qed
qed

section \<open>JSON.parse reads back what JSON.stringify writes\<close>




























lemma skip_ws_starts: "starts_value t \<Longrightarrow> skip_ws (t @ r) = t @ r"
  by (cases t) (simp_all add: starts_value_def skip_ws_def)

lemma skip_ws_stop: "stop r \<Longrightarrow> skip_ws r = r"
  by (cases r) (auto simp: stop_def skip_ws_def is_ws_def)

















lemma parse_chars_shorter: "parse_chars s = Some (k, r) \<Longrightarrow> length r < length s"
  by (induction s arbitrary: k r rule: parse_chars.induct)
     (fastforce simp: cons_fst_def split: if_splits list.splits option.splits)+

lemma skip_ws_shorter: "skip_ws s = c # cs \<Longrightarrow> length cs < length s"
proof -
  assume "skip_ws s = c # cs"
  then have "length (dropWhile is_ws s) = Suc (length cs)"
    by (simp add: skip_ws_def)
  moreover have "length (dropWhile is_ws s) \<le> length s"
    by (rule length_dropWhile_le)
  ultimately show ?thesis by simp
qed

lemma parse_number_shorter: "parse_number s = Some (n, r) \<Longrightarrow> length r < length s"
proof -
  assume a: "parse_number s = Some (n, r)"
  define s1 where "s1 = (if (case s of c # _ \<Rightarrow> c = CHR ''-'' | [] \<Rightarrow> False) then tl s else s)"
  from a have r: "r = dropWhile is_digit s1" and ds: "takeWhile is_digit s1 \<noteq> []"
    by (auto simp: parse_number_def Let_def s1_def split: if_splits)
  have "length (takeWhile is_digit s1) + length (dropWhile is_digit s1) = length s1"
    by (metis length_append takeWhile_dropWhile_id)
  moreover have "0 < length (takeWhile is_digit s1)" using ds by simp
  ultimately have "length r < length s1" unfolding r by linarith
  moreover have "length s1 \<le> length s" by (simp add: s1_def)
  ultimately show ?thesis by simp
qed

lemma parse_shorter:
  "parse_value s = Some (v, r) \<Longrightarrow> length r < length s"
  "parse_elems s = Some (vs, r) \<Longrightarrow> length r < length s"
  "parse_members s = Some (ps, r) \<Longrightarrow> length r < length s"
proof (induction s and s and s arbitrary: v r and vs r and ps r
    rule: parse_value_parse_elems_parse_members.induct)
  case (1 s)
  show ?case
  proof (cases "skip_ws s")
    case Nil
    with "1.prems" show ?thesis
      by (subst (asm) parse_value.simps) simp
  next
    case (Cons c cs)
    then have len: "length cs < length s" by (rule skip_ws_shorter)
    have eq: "parse_value s =
       (if c = CHR ''{'' then
            (case skip_ws cs of
               [] \<Rightarrow> None
             | d # r \<Rightarrow> if d = CHR ''}'' then Some (JObj [], r)
                        else map_option (apfst JObj) (parse_members cs))
          else if c = CHR ''['' then
            (case skip_ws cs of
               [] \<Rightarrow> None
             | d # r \<Rightarrow> if d = CHR '']'' then Some (JArr [], r)
                        else map_option (apfst JArr) (parse_elems cs))
          else if c = CHR 0x22 then map_option (apfst JStr) (parse_chars cs)
          else if prefix ''true'' (c # cs) then Some (JBool True, drop 4 (c # cs))
          else if prefix ''false'' (c # cs) then Some (JBool False, drop 5 (c # cs))
          else if prefix ''null'' (c # cs) then Some (JNull, drop 4 (c # cs))
          else map_option (apfst JNum) (parse_number (c # cs)))"
      by (subst parse_value.simps) (simp add: Cons)
    consider (obj) "c = CHR ''{''" | (arr) "c \<noteq> CHR ''{''" "c = CHR ''[''"
      | (str) "c \<noteq> CHR ''{''" "c \<noteq> CHR ''[''" "c = CHR 0x22"
      | (other) "c \<noteq> CHR ''{''" "c \<noteq> CHR ''[''" "c \<noteq> CHR 0x22"
      by blast
    then show ?thesis
    proof cases
      case obj
      show ?thesis
      proof (cases "skip_ws cs")
        case Nil
        with "1.prems" obj show ?thesis by (simp add: eq)
      next
        case inner: (Cons d r')
        show ?thesis
        proof (cases "d = CHR ''}''")
          case True
          with "1.prems" obj inner have "r = r'" by (simp add: eq)
          with skip_ws_shorter [OF inner] len show ?thesis by simp
        next
          case False
          with "1.prems" obj inner obtain ps where "parse_members cs = Some (ps, r)"
            by (auto simp: eq)
          from "1.IH"(1) [OF Cons obj inner False this] len show ?thesis by simp
        qed
      qed
    next
      case arr
      show ?thesis
      proof (cases "skip_ws cs")
        case Nil
        with "1.prems" arr show ?thesis by (simp add: eq)
      next
        case inner: (Cons d r')
        show ?thesis
        proof (cases "d = CHR '']''")
          case True
          with "1.prems" arr inner have "r = r'" by (simp add: eq)
          with skip_ws_shorter [OF inner] len show ?thesis by simp
        next
          case False
          with "1.prems" arr inner obtain es where "parse_elems cs = Some (es, r)"
            by (auto simp: eq)
          from "1.IH"(2) [OF Cons arr inner False this] len show ?thesis by simp
        qed
      qed
    next
      case str
      with "1.prems" obtain k where "parse_chars cs = Some (k, r)"
        by (auto simp: eq)
      from parse_chars_shorter [OF this] len show ?thesis by simp
    next
      case other
      have "length (c # cs) \<le> length s"
        using len by simp
      moreover have "length r < length (c # cs)"
        using "1.prems" other
        by (auto simp: eq split: if_splits dest: parse_number_shorter)
      ultimately show ?thesis by simp
    qed
  qed
next
  case (2 s)
  from "2.prems" obtain v r0 where v: "parse_value s = Some (v, r0)" and g: "length r0 < length s"
    by (subst (asm) parse_elems.simps) (auto split: option.splits if_splits)
  show ?case
  proof (cases "skip_ws r0")
    case Nil
    with "2.prems" v g show ?thesis
      by (subst (asm) parse_elems.simps) simp
  next
    case (Cons c r')
    then have len: "length r' < length r0" by (rule skip_ws_shorter)
    show ?thesis
    proof (cases "c = CHR '',''")
      case True
      with "2.prems" v g Cons obtain es where "parse_elems r' = Some (es, r)"
        by (subst (asm) parse_elems.simps) (auto simp: cons_fst_def split: option.splits)
      from "2.IH"(2) [OF v refl g Cons True this] len g show ?thesis by simp
    next
      case False
      with "2.prems" v g Cons have "r = r'"
        by (subst (asm) parse_elems.simps) (auto split: if_splits)
      with len g show ?thesis by simp
    qed
  qed
next
  case (3 s)
  from "3.prems" obtain s1 k s2 s3 v r0 where
    a: "skip_ws s = CHR 0x22 # s1" and b: "parse_chars s1 = Some (k, s2)" and
    c: "skip_ws s2 = CHR '':'' # s3" and d: "parse_value s3 = Some (v, r0)" and
    g: "length r0 < length s3"
    by (subst (asm) parse_members.simps) (auto split: list.splits if_splits option.splits)
  have len: "length s3 < length s"
    using skip_ws_shorter [OF a] parse_chars_shorter [OF b] skip_ws_shorter [OF c] by simp
  have eq: "parse_members s =
     (case skip_ws r0 of
        [] \<Rightarrow> None
      | c # r' \<Rightarrow>
          if c = CHR '','' then cons_fst (k, v) (parse_members r')
          else if c = CHR ''}'' then Some ([(k, v)], r')
          else None)"
    by (subst parse_members.simps) (simp add: a b c d g)
  show ?case
  proof (cases "skip_ws r0")
    case Nil
    with "3.prems" show ?thesis by (simp add: eq)
  next
    case (Cons e r')
    then have len': "length r' < length r0" by (rule skip_ws_shorter)
    show ?thesis
    proof (cases "e = CHR '',''")
      case True
      with "3.prems" Cons obtain ms where "parse_members r' = Some (ms, r)"
        by (auto simp: eq cons_fst_def split: option.splits)
      from "3.IH"(2) [OF a refl b refl c refl d refl g Cons True this] len len' g
      show ?thesis by simp
    next
      case False
      with "3.prems" Cons have "r = r'"
        by (auto simp: eq split: if_splits)
      with len len' g show ?thesis by simp
    qed
  qed
qed

section \<open>Properties of the cache\<close>






text \<open>
  Claim C3, amended. In \<open>getCacheStats\<close> an application-prefixed key whose blob does
  not parse does not abort the scan: the result is the count and the sum over all
  prefixed keys, the failure is written to the console, and the key adds 0 to
  \<open>expiredKeys\<close> and the length of its blob to \<open>totalSize\<close>.
\<close>

theorem getCacheStats_corrupt_entry:
  assumes "backend t w = Some st"
  shows "fst (getCacheStats now t w) =
           Inr \<lparr>totalKeys = length (Object_keys st), cacheKeys = length (cache_keys st),
                 expiredKeys = length (filter (entry_expired now st) (cache_keys st)),
                 totalSize = sum_list (map (entry_size st) (cache_keys st))\<rparr> \<and>
         (\<forall>key blob error.
            key \<in> set (cache_keys st) \<and> getItem st key = Some blob \<and> blob \<noteq> [] \<and>
            JSON_parse blob = Inl error \<longrightarrow>
              \<not> entry_expired now st key \<and> entry_size st key = length blob \<and>
              Error (''Error parsing cache item '' @ key @ '':'') error
                \<in> set (console (snd (getCacheStats now t w))))"
proof -
  have "Error (''Error parsing cache item '' @ key @ '':'') error
          \<in> set (concat (map (entry_log now st) (cache_keys st)))"
    if "key \<in> set (cache_keys st)" "getItem st key = Some blob" "blob \<noteq> []"
       "JSON_parse blob = Inl error" for key blob error
  proof -
    have "entry_log now st key = [Error (''Error parsing cache item '' @ key @ '':'') error]"
      using that by (simp add: entry_log_def)
    with that(1) show ?thesis by force
  qed
  then show ?thesis
    by (auto simp: getCacheStats_result [OF assms] entry_expired_def entry_size_def)
qed

text \<open>
  An unreadable entry of 7 characters beside an expired entry.
\<close>

theorem getCacheStats_corrupt_entry_witness:
  "backend LocalStorage (browser [(''tasa_cache_x'', ''garbage''), (''tasa_cache_p'', profile_blob)])
     = Some \<lparr>entries = [(''tasa_cache_x'', ''garbage''), (''tasa_cache_p'', profile_blob)],
              quota = 5000000\<rparr> \<and>
   ''tasa_cache_x'' \<in> set (cache_keys
      \<lparr>entries = [(''tasa_cache_x'', ''garbage''), (''tasa_cache_p'', profile_blob)],
       quota = 5000000\<rparr>) \<and>
   getItem \<lparr>entries = [(''tasa_cache_x'', ''garbage''), (''tasa_cache_p'', profile_blob)],
            quota = 5000000\<rparr> ''tasa_cache_x'' = Some ''garbage'' \<and>
   ''garbage'' \<noteq> [] \<and>
   JSON_parse ''garbage'' = Inl SyntaxError \<and>
   fst (getCacheStats 1700000001001 LocalStorage
          (browser [(''tasa_cache_x'', ''garbage''), (''tasa_cache_p'', profile_blob)]))
     = Inr \<lparr>totalKeys = 2, cacheKeys = 2, expiredKeys = 1, totalSize = 7 + length profile_blob\<rparr> \<and>
   Error ''Error parsing cache item tasa_cache_x:'' SyntaxError
     \<in> set (console (snd (getCacheStats 1700000001001 LocalStorage
          (browser [(''tasa_cache_x'', ''garbage''), (''tasa_cache_p'', profile_blob)]))))"
proof -
  let ?es = "[(''tasa_cache_x'', ''garbage''), (''tasa_cache_p'', profile_blob)]"
  let ?st = "\<lparr>entries = ?es, quota = 5000000\<rparr>"
  have p: "JSON_parse ''garbage'' = Inl SyntaxError"
    by (simp add: json_eval)
  have b: "backend LocalStorage (browser ?es) = Some ?st"
    by (simp add: world_eval)
  have k: "cache_keys ?st = [''tasa_cache_x'', ''tasa_cache_p'']"
    by (simp add: cache_keys_def Object_keys_def startsWith_def)
  have g: "getItem ?st ''tasa_cache_x'' = Some ''garbage''"
    by (simp add: getItem_def)
  have e1: "\<not> entry_expired 1700000001001 ?st ''tasa_cache_x''"
    by (simp add: entry_expired_def getItem_def p)
  have e2: "entry_expired 1700000001001 ?st ''tasa_cache_p''"
    by (simp add: entry_expired_def getItem_def parse_profile_blob parsed_nonempty
        profile_item_def isExpired_def get_prop_def js_gt_def ToNumber_def)
  have s: "entry_size ?st ''tasa_cache_x'' = 7" "entry_size ?st ''tasa_cache_p'' = length profile_blob"
    by (simp_all add: entry_size_def getItem_def)
  note main = getCacheStats_corrupt_entry [OF b, of 1700000001001]
  have r: "fst (getCacheStats 1700000001001 LocalStorage (browser ?es))
     = Inr \<lparr>totalKeys = 2, cacheKeys = 2, expiredKeys = 1, totalSize = 7 + length profile_blob\<rparr>"
    using main [THEN conjunct1] by (simp add: k e1 e2 s Object_keys_def)
  have l: "Error (''Error parsing cache item '' @ ''tasa_cache_x'' @ '':'') SyntaxError
     \<in> set (console (snd (getCacheStats 1700000001001 LocalStorage (browser ?es))))"
    using main [THEN conjunct2, rule_format, of "''tasa_cache_x''" "''garbage''" SyntaxError] g p
    by (simp add: k)
  show ?thesis
    using b k g p r l by simp
qed

text \<open>
  Claim C3 as stated, with a contribution of 0 to \<open>totalSize\<close>, fails: the length is
  added before \<open>JSON.parse\<close> is called, so a storage whose only prefixed entry is the
  unreadable blob \<open>garbage\<close> has \<open>totalSize = 7\<close>.
\<close>

theorem getCacheStats_corrupt_counterexample:
  "JSON_parse ''garbage'' = Inl SyntaxError \<and>
   fst (getCacheStats 0 LocalStorage (browser [(''tasa_cache_x'', ''garbage'')]))
     = Inr \<lparr>totalKeys = 1, cacheKeys = 1, expiredKeys = 0, totalSize = 7\<rparr> \<and>
   fst (getCacheStats 0 LocalStorage (browser []))
     = Inr \<lparr>totalKeys = 0, cacheKeys = 0, expiredKeys = 0, totalSize = 0\<rparr>"
proof -
  have p: "JSON_parse ''garbage'' = Inl SyntaxError"
    by (simp add: json_eval)
  have b: "backend LocalStorage (browser es) = Some \<lparr>entries = es, quota = 5000000\<rparr>" for es
    by (simp add: world_eval)
  show ?thesis
    by (simp add: p getCacheStats_result [OF b] cache_keys_def Object_keys_def startsWith_def
        entry_expired_def entry_size_def getItem_def)
qed

text \<open>
  Claim C4, amended. No cache operation raises outward. Each returns its safe
  default when the backend is unavailable; \<open>setCacheData\<close> returns false on a
  serialization or quota error; \<open>getCacheData\<close> returns \<open>null\<close> and \<open>hasValidCache\<close>
  false on a deserialization error. In \<open>getCacheStats\<close> and \<open>cleanupExpiredCache\<close> a
  deserialization error of one entry is handled inside the scan, and the operation
  returns the result of the whole scan (the entry is counted in \<open>totalSize\<close>, or
  removed and counted), not the default.
\<close>

theorem cache_facade_total:
  "(\<exists>b. fst (setCacheData now key d options w) = Inr b) \<and>
   (\<exists>v. fst (getCacheData now key options w) = Inr v) \<and>
   (\<exists>b. fst (removeCacheData key t w) = Inr b) \<and>
   (\<exists>b. fst (clearAllCache t w) = Inr b) \<and>
   (\<exists>s. fst (getCacheStats now t w) = Inr s) \<and>
   (\<exists>n. fst (cleanupExpiredCache now t w) = Inr n) \<and>
   (\<exists>b. fst (hasValidCache now key options w) = Inr b) \<and>
   (backend (storage (merge_options options)) w = None \<longrightarrow>
      fst (setCacheData now key d options w) = Inr False \<and>
      fst (getCacheData now key options w) = Inr JNull \<and>
      fst (hasValidCache now key options w) = Inr False) \<and>
   (backend t w = None \<longrightarrow>
      fst (removeCacheData key t w) = Inr False \<and>
      fst (clearAllCache t w) = Inr False \<and>
      fst (getCacheStats now t w) = Inr zero_stats \<and>
      fst (cleanupExpiredCache now t w) = Inr 0) \<and>
   (\<forall>error. JSON_stringify (make_item now d (merge_options options)) = Inl error \<longrightarrow>
      fst (setCacheData now key d options w) = Inr False) \<and>
   (\<forall>st blob error.
      backend (storage (merge_options options)) w = Some st \<and>
      JSON_stringify (make_item now d (merge_options options)) = Inr (Some blob) \<and>
      setItem st key blob = Inl error \<longrightarrow>
        fst (setCacheData now key d options w) = Inr False) \<and>
   (\<forall>st blob error.
      backend (storage (merge_options options)) w = Some st \<and> getItem st key = Some blob \<and>
      JSON_parse blob = Inl error \<longrightarrow>
        fst (getCacheData now key options w) = Inr JNull \<and>
        fst (hasValidCache now key options w) = Inr False) \<and>
   (\<forall>st. backend t w = Some st \<longrightarrow>
      fst (getCacheStats now t w) =
        Inr \<lparr>totalKeys = length (Object_keys st), cacheKeys = length (cache_keys st),
              expiredKeys = length (filter (entry_expired now st) (cache_keys st)),
              totalSize = sum_list (map (entry_size st) (cache_keys st))\<rparr>) \<and>
   (\<forall>st. backend t w = Some st \<and> distinct (Object_keys st) \<longrightarrow>
      fst (cleanupExpiredCache now t w) =
        Inr (length (filter (entry_removable now st) (cache_keys st))))"
proof -
  have full: "fst (setCacheData now key d options w) = Inr False"
    if "backend (storage (merge_options options)) w = Some st"
      "JSON_stringify (make_item now d (merge_options options)) = Inr (Some blob)"
      "setItem st key blob = Inl error" for st blob error
    using that by (simp add: setCacheData_Some)
  have ser: "fst (setCacheData now key d options w) = Inr False"
    if "JSON_stringify (make_item now d (merge_options options)) = Inl error" for error
  proof (cases "backend (storage (merge_options options)) w")
    case None
    then show ?thesis by (simp add: setCacheData_None)
  next
    case (Some st)
    then show ?thesis using that by (simp add: setCacheData_Some)
  qed
  show ?thesis
    using setCacheData_total [of now key d options w] getCacheData_total [of now key options w]
      clearAllCache_total [of t w] getCacheStats_total [of now t w]
      cleanupExpiredCache_total [of now t w] hasValidCache_total [of now key options w]
    by (simp add: removeCacheData_result setCacheData_None getCacheData_None hasValidCache_None
        clearAllCache_None getCacheStats_None cleanupExpiredCache_None ser
        getCacheData_unparsable hasValidCache_unparsable getCacheStats_result
        cleanupExpiredCache_count)
       (use full in blast)
qed

text \<open>
  A server-side world, a \<open>BigInt\<close> payload, a full storage, and an unreadable blob.
\<close>

theorem cache_facade_total_witness:
  "backend (storage (merge_options no_options)) server = None \<and>
   fst (setCacheData 0 ''k'' JNull no_options server) = Inr False \<and>
   fst (getCacheData 0 ''k'' no_options server) = Inr JNull \<and>
   fst (hasValidCache 0 ''k'' no_options server) = Inr False \<and>
   backend LocalStorage server = None \<and>
   fst (removeCacheData ''k'' LocalStorage server) = Inr False \<and>
   fst (clearAllCache LocalStorage server) = Inr False \<and>
   fst (getCacheStats 0 LocalStorage server) = Inr zero_stats \<and>
   fst (cleanupExpiredCache 0 LocalStorage server) = Inr 0 \<and>
   JSON_stringify (make_item 0 (JBigInt 1) (merge_options no_options)) = Inl TypeError \<and>
   fst (setCacheData 0 ''k'' (JBigInt 1) no_options (browser [])) = Inr False \<and>
   backend (storage (merge_options no_options)) small_browser
     = Some \<lparr>entries = [], quota = 10\<rparr> \<and>
   JSON_stringify (make_item 0 JNull (merge_options no_options)) = Inr (Some null_blob) \<and>
   setItem \<lparr>entries = [], quota = 10\<rparr> ''k'' null_blob = Inl QuotaExceededError \<and>
   fst (setCacheData 0 ''k'' JNull no_options small_browser) = Inr False \<and>
   backend (storage (merge_options no_options)) (browser [(''k'', ''garbage'')])
     = Some \<lparr>entries = [(''k'', ''garbage'')], quota = 5000000\<rparr> \<and>
   getItem \<lparr>entries = [(''k'', ''garbage'')], quota = 5000000\<rparr> ''k'' = Some ''garbage'' \<and>
   JSON_parse ''garbage'' = Inl SyntaxError \<and>
   fst (getCacheData 0 ''k'' no_options (browser [(''k'', ''garbage'')])) = Inr JNull \<and>
   fst (hasValidCache 0 ''k'' no_options (browser [(''k'', ''garbage'')])) = Inr False \<and>
   backend LocalStorage (browser [(''tasa_cache_x'', ''garbage'')])
     = Some \<lparr>entries = [(''tasa_cache_x'', ''garbage'')], quota = 5000000\<rparr> \<and>
   distinct (Object_keys \<lparr>entries = [(''tasa_cache_x'', ''garbage'')], quota = 5000000\<rparr>) \<and>
   fst (getCacheStats 0 LocalStorage (browser [(''tasa_cache_x'', ''garbage'')]))
     = Inr \<lparr>totalKeys = 1, cacheKeys = 1, expiredKeys = 0, totalSize = 7\<rparr> \<and>
   fst (cleanupExpiredCache 0 LocalStorage (browser [(''tasa_cache_x'', ''garbage'')])) = Inr 1"
proof -
  let ?st = "\<lparr>entries = [(''tasa_cache_x'', ''garbage'')], quota = 5000000\<rparr>"
  have s: "JSON_stringify (make_item 0 (JBigInt 1) (merge_options no_options)) = Inl TypeError"
    by (simp add: JSON_stringify_def make_item_def)
  have n: "JSON_stringify (make_item 0 JNull (merge_options no_options)) = Inr (Some null_blob)"
    by (simp add: make_item_def merge_no_options null_blob_def json_eval)
  have sb: "backend (storage (merge_options no_options)) small_browser
     = Some \<lparr>entries = [], quota = 10\<rparr>"
    by (simp add: merge_no_options small_browser_def backend_def storage_global_def)
  have q: "setItem \<lparr>entries = [], quota = 10\<rparr> ''k'' null_blob = Inl QuotaExceededError"
    by (simp add: setItem_def used_def null_blob_def)
  have b: "backend (storage (merge_options no_options)) (browser [(''k'', ''garbage'')])
     = Some \<lparr>entries = [(''k'', ''garbage'')], quota = 5000000\<rparr>"
    by (simp add: merge_no_options backend_browser)
  have g: "getItem \<lparr>entries = [(''k'', ''garbage'')], quota = 5000000\<rparr> ''k'' = Some ''garbage''"
    by (simp add: getItem_def)
  have k: "cache_keys ?st = [''tasa_cache_x'']" "Object_keys ?st = [''tasa_cache_x'']"
    by (simp_all add: cache_keys_def Object_keys_def startsWith_def)
  have e: "\<not> entry_expired 0 ?st ''tasa_cache_x''" "entry_removable 0 ?st ''tasa_cache_x''"
    "entry_size ?st ''tasa_cache_x'' = 7"
    by (simp_all add: entry_expired_def entry_removable_def entry_size_def getItem_def
        parse_garbage)
  show ?thesis
    using cache_facade_total [of 0 "''k''" JNull no_options server LocalStorage]
      cache_facade_total [of 0 "''k''" "JBigInt 1" no_options "browser []" LocalStorage]
      cache_facade_total [of 0 "''k''" JNull no_options small_browser LocalStorage]
      cache_facade_total [of 0 "''k''" JNull no_options "browser [(''k'', ''garbage'')]" LocalStorage]
      cache_facade_total [of 0 "''k''" JNull no_options "browser [(''tasa_cache_x'', ''garbage'')]"
        LocalStorage]
    by (simp add: backend_server s n sb q b g parse_garbage backend_browser k e)
qed

text \<open>
  Claim C4 as stated, with the safe default on every deserialization error, fails:
  \<open>cleanupExpiredCache\<close> removes the unreadable entry and returns 1, and
  \<open>getCacheStats\<close> returns a record that is not zeroed.
\<close>

theorem cache_facade_counterexample:
  "JSON_parse ''garbage'' = Inl SyntaxError \<and>
   fst (cleanupExpiredCache 0 LocalStorage (browser [(''tasa_cache_x'', ''garbage'')])) = Inr 1 \<and>
   fst (getCacheStats 0 LocalStorage (browser [(''tasa_cache_x'', ''garbage'')])) \<noteq> Inr zero_stats"
proof -
  let ?st = "\<lparr>entries = [(''tasa_cache_x'', ''garbage'')], quota = 5000000\<rparr>"
  have d: "distinct (Object_keys ?st)" by (simp add: Object_keys_def)
  have r: "entry_removable 0 ?st ''tasa_cache_x''"
    by (simp add: entry_removable_def getItem_def parse_garbage)
  have "fst (cleanupExpiredCache 0 LocalStorage (browser [(''tasa_cache_x'', ''garbage'')])) = Inr 1"
    using r
    by (simp add: cleanupExpiredCache_count [OF backend_browser d] cache_keys_def Object_keys_def
        startsWith_def)
  moreover have "fst (getCacheStats 0 LocalStorage (browser [(''tasa_cache_x'', ''garbage'')]))
        \<noteq> Inr zero_stats"
    by (simp add: getCacheStats_result [OF backend_browser] zero_stats_def Object_keys_def)
  ultimately show ?thesis by (simp add: parse_garbage)
qed

text \<open>
  Claim C7. For every storage state, \<open>clearAllCache\<close> returns false only when the
  backend is unavailable; it deletes exactly the keys that start with \<open>tasa_cache_\<close>
  and leaves every other key of the backend, and the other backend, unchanged;
  afterwards \<open>getCacheStats\<close> reports \<open>cacheKeys = 0\<close>.
\<close>

theorem clearAllCache_frame:
  "fst (clearAllCache t w) = Inr (backend t w \<noteq> None) \<and>
   (\<forall>st. backend t w = Some st \<longrightarrow>
      backend t (snd (clearAllCache t w)) =
        Some (st\<lparr>entries := filter (\<lambda>e. \<not> startsWith (fst e) ''tasa_cache_'') (entries st)\<rparr>)) \<and>
   (\<forall>st st' k. backend t w = Some st \<and> backend t (snd (clearAllCache t w)) = Some st' \<longrightarrow>
      getItem st' k = (if startsWith k ''tasa_cache_'' then None else getItem st k)) \<and>
   (\<forall>t'. t' \<noteq> t \<longrightarrow> backend t' (snd (clearAllCache t w)) = backend t' w) \<and>
   (\<exists>s. fst (getCacheStats now t (snd (clearAllCache t w))) = Inr s \<and> cacheKeys s = 0)"
proof (cases "backend t w")
  case None
  then have "backend t (snd (clearAllCache t w)) = None"
    by (simp add: clearAllCache_None_snd)
  then have "fst (getCacheStats now t (snd (clearAllCache t w))) = Inr zero_stats"
    by (rule getCacheStats_None)
  with None show ?thesis
    by (simp add: clearAllCache_None clearAllCache_None_snd zero_stats_def)
next
  case (Some st)
  let ?st' = "st\<lparr>entries := filter (\<lambda>e. \<not> startsWith (fst e) ''tasa_cache_'') (entries st)\<rparr>"
  have run: "clearAllCache t w = (Inr True, put_storage t ?st' w)"
    using Some by (simp add: clearAllCache_Some foldl_removeItem_cache_keys)
  have win: "window_defined w" using Some by (rule backend_window)
  have after: "backend t' (put_storage t ?st' w) = (if t' = t then Some ?st' else backend t' w)" for t'
    using win by (rule backend_put_storage)
  have "backend t (put_storage t ?st' w) = Some ?st'" by (simp add: after)
  then have "\<exists>s. fst (getCacheStats now t (put_storage t ?st' w)) = Inr s \<and> cacheKeys s = 0"
    by (simp add: getCacheStats_Some cache_keys_cleared)
  with Some show ?thesis
    by (simp add: run after getItem_cleared)
qed

text \<open>A storage with one prefixed and one foreign key.\<close>

theorem clearAllCache_frame_witness:
  "backend LocalStorage (browser [(''tasa_cache_user'', profile_blob), (''theme'', ''dark'')])
     = Some \<lparr>entries = [(''tasa_cache_user'', profile_blob), (''theme'', ''dark'')],
              quota = 5000000\<rparr> \<and>
   fst (clearAllCache LocalStorage
          (browser [(''tasa_cache_user'', profile_blob), (''theme'', ''dark'')])) = Inr True \<and>
   backend LocalStorage
     (snd (clearAllCache LocalStorage
             (browser [(''tasa_cache_user'', profile_blob), (''theme'', ''dark'')])))
     = Some \<lparr>entries = [(''theme'', ''dark'')], quota = 5000000\<rparr> \<and>
   SessionStorage \<noteq> LocalStorage \<and>
   backend SessionStorage
     (snd (clearAllCache LocalStorage
             (browser [(''tasa_cache_user'', profile_blob), (''theme'', ''dark'')])))
     = Some \<lparr>entries = [], quota = 5000000\<rparr>"
  using clearAllCache_frame
    [of LocalStorage "browser [(''tasa_cache_user'', profile_blob), (''theme'', ''dark'')]" 0]
  by (simp add: world_eval startsWith_def)



text \<open>
  Claim C9. \<open>forceRefresh\<close> is inert: \<open>setCacheData\<close>, \<open>getCacheData\<close> and
  \<open>hasValidCache\<close> return the same result and leave the same world whatever the
  value of the option.
\<close>

theorem forceRefresh_inert:
  "setCacheData now key d (options\<lparr>forceRefresh_opt := f\<rparr>) w =
     setCacheData now key d (options\<lparr>forceRefresh_opt := g\<rparr>) w \<and>
   getCacheData now key (options\<lparr>forceRefresh_opt := f\<rparr>) w =
     getCacheData now key (options\<lparr>forceRefresh_opt := g\<rparr>) w \<and>
   hasValidCache now key (options\<lparr>forceRefresh_opt := f\<rparr>) w =
     hasValidCache now key (options\<lparr>forceRefresh_opt := g\<rparr>) w"
  unfolding setCacheData_def getCacheData_def hasValidCache_def make_item_def Let_def
    merge_options_forceRefresh
  by simp



section \<open>Properties of the database connection\<close>

text \<open>
  Claim C6. Once a connection is cached, every later call of \<open>dbConnect\<close> returns it
  and starts no connection attempt, whatever calls and resumptions come in between.
  While an attempt is pending, a call starts no second attempt and awaits the same
  promise. From the empty state, two calls before the promise settles await the
  same promise and exactly one attempt is made; any further calls and resumptions
  leave it at one.
\<close>

theorem dbConnect_memoized:
  "(connection (cached p) = Some c \<longrightarrow>
      dbConnect_call p = (Return c, p) \<and>
      dbConnect_call (run c es p) = (Return c, run c es p) \<and>
      connect_calls (run c es p) = connect_calls p) \<and>
   (connection (cached p) = None \<and> promise (cached p) = Some q \<longrightarrow>
      dbConnect_call p = (Await q, p)) \<and>
   (connection (cached p) = None \<and> promise (cached p) = None \<longrightarrow>
      fst (dbConnect_call p) = Await (connect_calls p) \<and>
      fst (dbConnect_call (snd (dbConnect_call p))) = Await (connect_calls p) \<and>
      connect_calls (snd (dbConnect_call (snd (dbConnect_call p)))) = connect_calls p + 1 \<and>
      connect_calls (run c (Call # es) p) = connect_calls p + 1)"
proof -
  have a: "dbConnect_call p' = (Return c, p')" if "connection (cached p') = Some c" for p'
    using that by (simp add: dbConnect_call_def)
  have first: "connect_calls (run c (Call # es) p) = connect_calls p + 1"
    if "connection (cached p) = None" "promise (cached p) = None"
  proof -
    let ?p1 = "snd (dbConnect_call p)"
    have "promise (cached ?p1) \<noteq> None" "connect_calls ?p1 = connect_calls p + 1"
      using that by (simp_all add: dbConnect_call_def)
    with run_attempts [of ?p1 c es] show ?thesis by simp
  qed
  show ?thesis
    using run_connected [of p c es] first
    by (auto simp: a) (simp_all add: dbConnect_call_def)
qed

text \<open>
  Two concurrent calls from the empty state, then calls after the connection.
\<close>

theorem dbConnect_memoized_witness:
  "connection (cached idle) = None \<and> promise (cached idle) = None \<and>
   fst (dbConnect_call idle) = Await 0 \<and>
   connection (cached (snd (dbConnect_call idle))) = None \<and>
   promise (cached (snd (dbConnect_call idle))) = Some 0 \<and>
   dbConnect_call (snd (dbConnect_call idle)) = (Await 0, snd (dbConnect_call idle)) \<and>
   connect_calls (snd (dbConnect_call (snd (dbConnect_call idle)))) = 1 \<and>
   connection (cached (run ''db'' [Call, Call, Resume] idle)) = Some ''db'' \<and>
   dbConnect_call (run ''db'' [Call, Resume, Call, Resume] (run ''db'' [Call, Call, Resume] idle))
     = (Return ''db'', run ''db'' [Call, Resume, Call, Resume] (run ''db'' [Call, Call, Resume] idle)) \<and>
   connect_calls (run ''db'' [Call, Resume, Call, Resume] (run ''db'' [Call, Call, Resume] idle)) = 1"
proof -
  have i: "connection (cached idle) = None" "promise (cached idle) = None" "connect_calls idle = 0"
    by (simp_all add: idle_def)
  have p1: "connection (cached (snd (dbConnect_call idle))) = None"
    "promise (cached (snd (dbConnect_call idle))) = Some 0"
    by (simp_all add: dbConnect_call_def idle_def)
  have fin: "connection (cached (run ''db'' [Call, Call, Resume] idle)) = Some ''db''"
    "connect_calls (run ''db'' [Call, Call, Resume] idle) = 1"
    by (simp_all add: dbConnect_call_def dbConnect_resume_def idle_def)
  show ?thesis
    using dbConnect_memoized [of idle "''db''" "[]" 0]
      dbConnect_memoized [of "snd (dbConnect_call idle)" "''db''" "[]" 0]
      dbConnect_memoized [of "run ''db'' [Call, Call, Resume] idle" "''db''"
         "[Call, Resume, Call, Resume]" 0]
    by (simp add: dbConnect_call_def dbConnect_resume_def idle_def)
qed

section \<open>Properties of the auth gate\<close>

text \<open>
  Claim C5. For every request path and token, \<open>authorized\<close> returns true when the
  path starts with \<open>/auth/\<close>, whatever the token; when the path starts with
  \<open>/dashboard\<close> or \<open>/profile\<close> it returns true exactly when the token is not null; for
  every other path it returns true. In particular \<open>/dashboard/settings\<close> without a
  token is denied, and \<open>/auth/login\<close> and \<open>/public/info\<close> without a token are allowed.
\<close>

theorem auth_gate_decision:
  "(startsWith path ''/auth/'' \<longrightarrow> authorized (token :: 'tok option) path) \<and>
   (startsWith path ''/dashboard'' \<or> startsWith path ''/profile''
      \<longrightarrow> authorized token path = (token \<noteq> None)) \<and>
   (\<not> startsWith path ''/auth/'' \<and> \<not> startsWith path ''/dashboard'' \<and>
    \<not> startsWith path ''/profile'' \<longrightarrow> authorized token path) \<and>
   \<not> authorized (None :: 'tok option) ''/dashboard/settings'' \<and>
   authorized (None :: 'tok option) ''/auth/login'' \<and>
   authorized (None :: 'tok option) ''/public/info''"
  by (auto simp: authorized_def startsWith_def prefix_def)

text \<open>The three kinds of path, at concrete requests.\<close>

theorem auth_gate_decision_witness:
  "startsWith ''/auth/login'' ''/auth/'' \<and> authorized (None :: unit option) ''/auth/login'' \<and>
   startsWith ''/profile/me'' ''/profile'' \<and> \<not> authorized (None :: unit option) ''/profile/me'' \<and>
   authorized (Some ()) ''/profile/me'' \<and>
   \<not> startsWith ''/public/info'' ''/auth/'' \<and> \<not> startsWith ''/public/info'' ''/dashboard'' \<and>
   \<not> startsWith ''/public/info'' ''/profile'' \<and> authorized (None :: unit option) ''/public/info''"
  using auth_gate_decision [of "''/auth/login''" "None :: unit option"]
        auth_gate_decision [of "''/profile/me''" "None :: unit option"]
        auth_gate_decision [of "''/profile/me''" "Some ()"]
        auth_gate_decision [of "''/public/info''" "None :: unit option"]
  by (simp add: startsWith_def)

end
